theory Spec2Isabelle
  imports Main "HOL-Library.AList"
begin

section \<open>Data model\<close>

text \<open>
  Python objects are mutable and shared by reference: a node can be registered in a pool
  under several identifiers, and a player created on a node is seen through every reference
  to that node. Nodes therefore live in a store (\<open>heap\<close>) and a pool holds references.
  A pool's \<^verbatim>\<open>_nodes\<close> dictionary is an association list in insertion order, as Python
  dictionaries are; its keys are \<open>string option\<close> because the identifier that
  \<^verbatim>\<open>create_node\<close> tests and stores under can be \<^verbatim>\<open>None\<close>.
\<close>

type_synonym node_ref = nat
type_synonym pool_ref = nat
type_synonym snowflake = nat
type_synonym handle = nat

datatype error =
    NodeConflict pool_ref "string option"
  | NoAvailableNodes pool_ref
  | NoMatches pool_ref "string option" "string option"
  | PlayerNotFound node_ref snowflake
  | ConnectionFailure node_ref
  | NameError string
  | OtherException string

text \<open>The keyword arguments of \<^verbatim>\<open>create_node\<close> and \<^verbatim>\<open>start_node\<close>.\<close>

record node_kwargs =
  kw_bot :: handle
  kw_host :: string
  kw_port :: "int + string"
  kw_password :: "string option"
  kw_region :: "string option"
  kw_identifier :: "string option"
  kw_session :: "handle option"
  kw_loop :: "handle option"
  kw_prefer_http :: bool
  kw_secure :: bool
  kw_serializer :: handle

datatype lifecycle = Unstarted | Ready | Closed

record player =
  player_ref :: nat
  guild :: snowflake
  owner :: node_ref

text \<open>
  Modelled from the spec: the class \<^verbatim>\<open>Node\<close> (node.py is not among the sources).
  Spec section 3: a Connection has an identifier, a region tag (optional), a lifecycle
  state, a mapping from session key to owned Session and a load metric reported by the
  server or, absent that, the count of owned Sessions.
\<close>

record node =
  node_identifier :: string
  region :: "string option"
  config :: node_kwargs
  state :: lifecycle
  reported_players :: "int option"
  players :: "(snowflake \<times> player) list"

record world =
  heap :: "node_ref \<Rightarrow> node"
  pools :: "pool_ref \<Rightarrow> (string option \<times> node_ref) list"
  next_node :: node_ref
  next_player :: nat

section \<open>The absent Node class\<close>

text \<open>
  Modelled from the spec: \<^verbatim>\<open>Node.player_count\<close>, the load metric of spec section 3
  (reported by the server or, absent that, the count of owned Sessions).
\<close>

definition player_count :: "node \<Rightarrow> int" where
  "player_count n =
     (case reported_players n of Some k \<Rightarrow> k | None \<Rightarrow> int (length (players n)))"

text \<open>
  Modelled from the spec: \<^verbatim>\<open>Node.__init__\<close>. A Connection is constructed
  registered-but-unstarted and owns no Session. What the constructor takes as the node's
  own identifier when it is handed \<^verbatim>\<open>None\<close> is not visible from the pool: it is the
  parameter \<open>auto\<close>.
\<close>

definition Node_init :: "string \<Rightarrow> node_kwargs \<Rightarrow> node" where
  "Node_init auto kw =
     \<lparr> node_identifier = (case kw_identifier kw of Some i \<Rightarrow> i | None \<Rightarrow> auto),
       region = kw_region kw,
       config = kw,
       state = Unstarted,
       reported_players = None,
       players = [] \<rparr>"

text \<open>
  Modelled from the spec: \<^verbatim>\<open>Node.get_player\<close>, spec 4.2 \<open>resolveSession(key, failIfAbsent)\<close>:
  returns the existing Session or, unless \<open>failIfAbsent\<close>, lazily creates one owned by this
  Connection; with \<open>failIfAbsent\<close> and no existing Session it fails SessionNotFound.
\<close>

definition Node_get_player ::
  "node_ref \<Rightarrow> snowflake \<Rightarrow> bool \<Rightarrow> world \<Rightarrow> (error + player) \<times> world" where
  "Node_get_player r g fail_if_not_exists w =
     (case map_of (players (heap w r)) g of
        Some p \<Rightarrow> (Inr p, w)
      | None \<Rightarrow>
          if fail_if_not_exists then (Inl (PlayerNotFound r g), w)
          else
            let p = \<lparr> player_ref = next_player w, guild = g, owner = r \<rparr> in
            (Inr p,
             w\<lparr> heap := (heap w)(r := (heap w r)
                          \<lparr> players := AList.update g p (players (heap w r)) \<rparr>),
                next_player := Suc (next_player w) \<rparr>))"

text \<open>
  Modelled from the spec: \<^verbatim>\<open>Node.destroy\<close>, spec 4.2 \<open>teardown()\<close>: closes the transport
  and tears down every owned Session. Whether the call raises is decided by the node and
  its transport, outside the pool: \<open>raises r\<close> is the exception node \<open>r\<close> raises, if any.
\<close>

definition Node_destroy ::
  "(node_ref \<Rightarrow> error option) \<Rightarrow> node_ref \<Rightarrow> world \<Rightarrow> (error + unit) \<times> world" where
  "Node_destroy raises r w =
     (case raises r of
        Some e \<Rightarrow> (Inl e, w)
      | None \<Rightarrow> (Inr (), w\<lparr> heap := (heap w)(r := (heap w r)\<lparr> state := Closed, players := [] \<rparr>) \<rparr>))"

text \<open>
  Modelled from the spec: \<^verbatim>\<open>Node.start\<close>, spec 4.2 \<open>start()\<close>: on success the Connection
  is Ready; a failure (connection, handshake, authorization) is raised to the caller.
\<close>

definition Node_start ::
  "(node_ref \<Rightarrow> error option) \<Rightarrow> node_ref \<Rightarrow> world \<Rightarrow> (error + unit) \<times> world" where
  "Node_start raises r w =
     (case raises r of
        Some e \<Rightarrow> (Inl e, w)
      | None \<Rightarrow> (Inr (), w\<lparr> heap := (heap w)(r := (heap w r)\<lparr> state := Ready \<rparr>) \<rparr>))"

section \<open>NodePool\<close>

text \<open>\<^verbatim>\<open>__init__\<close>: the pool starts with an empty dictionary.\<close>

definition NodePool_init :: "pool_ref \<Rightarrow> world \<Rightarrow> world" where
  "NodePool_init self w = w\<lparr> pools := (pools w)(self := []) \<rparr>"

definition walk_nodes :: "pool_ref \<Rightarrow> world \<Rightarrow> node_ref list" where
  "walk_nodes self w = map snd (pools w self)"

definition nodes :: "pool_ref \<Rightarrow> world \<Rightarrow> node_ref list" where
  "nodes self w = walk_nodes self w"

text \<open>\<^verbatim>\<open>identifier in self._nodes\<close>\<close>

definition has_key :: "pool_ref \<Rightarrow> world \<Rightarrow> string option \<Rightarrow> bool" where
  "has_key self w k = (k \<in> set (map fst (pools w self)))"

text \<open>
  \<^verbatim>\<open>add_node\<close>. The conflict test is made on the identifier after the \<^verbatim>\<open>None\<close> default;
  the key stored under is \<^verbatim>\<open>identifier or node.identifier\<close>, and Python's \<^verbatim>\<open>or\<close> takes
  its right operand when the left one is the empty string.
\<close>

definition add_node ::
  "pool_ref \<Rightarrow> node_ref \<Rightarrow> string option \<Rightarrow> world \<Rightarrow> (error + unit) \<times> world" where
  "add_node self node ident w =
     (let ident1 = (case ident of None \<Rightarrow> node_identifier (heap w node) | Some i \<Rightarrow> i) in
      if has_key self w (Some ident1) then (Inl (NodeConflict self (Some ident1)), w)
      else
        let key = (if ident1 \<noteq> [] then ident1 else node_identifier (heap w node)) in
        (Inr (), w\<lparr> pools := (pools w)(self := AList.update (Some key) node (pools w self)) \<rparr>))"

text \<open>
  \<^verbatim>\<open>create_node\<close>. pool.py imports \<^verbatim>\<open>Node\<close> only under \<^verbatim>\<open>if TYPE_CHECKING:\<close>,
  which is false when the program runs, so the global name \<^verbatim>\<open>Node\<close> is unbound in
  the module: once the conflict test has passed, evaluating \<^verbatim>\<open>Node(...)\<close> raises
  NameError, before anything is stored in the pool.
\<close>

definition create_node ::
  "pool_ref \<Rightarrow> node_kwargs \<Rightarrow> world \<Rightarrow> (error + node_ref) \<times> world" where
  "create_node self kw w =
     (let ident = (if kw_identifier kw = None \<and> pools w self = [] then Some ''MAIN''
                   else kw_identifier kw) in
      if has_key self w ident then (Inl (NodeConflict self ident), w)
      else (Inl (NameError ''Node''), w))"

text \<open>
  The same method as it runs when the name \<^verbatim>\<open>Node\<close> has been bound to the class in
  the module's namespace from outside (\<^verbatim>\<open>pool.Node = Node\<close>): the statements after the
  conflict test are then reached. \<open>auto\<close> is as in \<^const>\<open>Node_init\<close>.
\<close>

definition create_node_bound ::
  "pool_ref \<Rightarrow> string \<Rightarrow> node_kwargs \<Rightarrow> world \<Rightarrow> (error + node_ref) \<times> world" where
  "create_node_bound self auto kw w =
     (let ident = (if kw_identifier kw = None \<and> pools w self = [] then Some ''MAIN''
                   else kw_identifier kw) in
      if has_key self w ident then (Inl (NodeConflict self ident), w)
      else
        let node = next_node w in
        (Inr node,
         w\<lparr> heap := (heap w)(node := Node_init auto (kw\<lparr> kw_identifier := ident \<rparr>)),
            pools := (pools w)(self := AList.update ident node (pools w self)),
            next_node := Suc node \<rparr>))"

definition start_node ::
  "(node_ref \<Rightarrow> error option) \<Rightarrow> pool_ref \<Rightarrow> node_kwargs \<Rightarrow> world
     \<Rightarrow> (error + node_ref) \<times> world" where
  "start_node raises self kw w =
     (case create_node self kw w of
        (Inl e, w') \<Rightarrow> (Inl e, w')
      | (Inr node, w') \<Rightarrow>
          (case Node_start raises node w' of
             (Inl e, w'') \<Rightarrow> (Inl e, w'')
           | (Inr u, w'') \<Rightarrow> (Inr node, w'')))"

text \<open>
  \<^verbatim>\<open>get_node\<close> reads the pool and changes nothing. Python's \<^verbatim>\<open>sorted\<close> is stable, as
  \<^const>\<open>sort_key\<close> is; \<^verbatim>\<open>[0]\<close> on the empty list raises IndexError, which the method
  turns into NoMatches.
\<close>

definition get_node ::
  "pool_ref \<Rightarrow> string option \<Rightarrow> string option \<Rightarrow> world \<Rightarrow> error + node_ref" where
  "get_node self ident reg w =
     (if pools w self = [] then Inl (NoAvailableNodes self)
      else
        case ident of
          Some i \<Rightarrow>
            (case map_of (pools w self) (Some i) of
               Some node \<Rightarrow> Inr node
             | None \<Rightarrow> Inl (NoMatches self ident reg))
        | None \<Rightarrow>
            let ns = (case reg of
                        Some rg \<Rightarrow> filter (\<lambda>node. region (heap w node) = Some rg) (walk_nodes self w)
                      | None \<Rightarrow> walk_nodes self w) in
            (case sort_key (\<lambda>node. player_count (heap w node)) ns of
               [] \<Rightarrow> Inl (NoMatches self ident reg)
             | node # rest \<Rightarrow> Inr node))"

text \<open>
  The loop of \<^verbatim>\<open>get_player\<close>: the first node that has a player for the guild ends the
  loop with that player, PlayerNotFound moves on to the next node, any other exception
  leaves the method. \<open>None\<close> is the loop running to its end.
\<close>

fun get_player_loop ::
  "node_ref list \<Rightarrow> snowflake \<Rightarrow> world \<Rightarrow> (error + player) option \<times> world" where
  "get_player_loop [] g w = (None, w)"
| "get_player_loop (node # rest) g w =
     (case Node_get_player node g True w of
        (Inr p, w') \<Rightarrow> (Some (Inr p), w')
      | (Inl (PlayerNotFound n g'), w') \<Rightarrow> get_player_loop rest g w'
      | (Inl e, w') \<Rightarrow> (Some (Inl e), w'))"

definition get_player ::
  "pool_ref \<Rightarrow> snowflake \<Rightarrow> node_ref option \<Rightarrow> world \<Rightarrow> (error + player) \<times> world" where
  "get_player self g node w =
     (case node of
        Some n \<Rightarrow> Node_get_player n g False w
      | None \<Rightarrow>
          (case get_player_loop (walk_nodes self w) g w of
             (Some res, w') \<Rightarrow> (res, w')
           | (None, w') \<Rightarrow>
               (case get_node self None None w' of
                  Inl e \<Rightarrow> (Inl e, w')
                | Inr n \<Rightarrow> Node_get_player n g False w')))"

text \<open>
  \<^verbatim>\<open>destroy\<close>: the loop awaits each node's \<^verbatim>\<open>destroy\<close> with no exception handler, so
  the first exception leaves the method before \<^verbatim>\<open>self._nodes.clear()\<close>.
\<close>

fun destroy_loop ::
  "(node_ref \<Rightarrow> error option) \<Rightarrow> node_ref list \<Rightarrow> world \<Rightarrow> (error + unit) \<times> world" where
  "destroy_loop raises [] w = (Inr (), w)"
| "destroy_loop raises (node # rest) w =
     (case Node_destroy raises node w of
        (Inl e, w') \<Rightarrow> (Inl e, w')
      | (Inr u, w') \<Rightarrow> destroy_loop raises rest w')"

definition destroy ::
  "(node_ref \<Rightarrow> error option) \<Rightarrow> pool_ref \<Rightarrow> world \<Rightarrow> (error + unit) \<times> world" where
  "destroy raises self w =
     (case destroy_loop raises (walk_nodes self w) w of
        (Inl e, w') \<Rightarrow> (Inl e, w')
      | (Inr u, w') \<Rightarrow> (Inr (), w'\<lparr> pools := (pools w')(self := []) \<rparr>))"

text \<open>The world after the nodes \<open>ns\<close> have each been torn down.\<close>

definition close_all :: "node_ref list \<Rightarrow> world \<Rightarrow> world" where
  "close_all ns w =
     w\<lparr> heap := (\<lambda>n. if n \<in> set ns then (heap w n)\<lparr> state := Closed, players := [] \<rparr>
                     else heap w n) \<rparr>"

definition len :: "pool_ref \<Rightarrow> world \<Rightarrow> nat" where
  "len self w = length (pools w self)"

section \<open>The default pool and the module-level functions\<close>

definition DefaultNodePool :: pool_ref where
  "DefaultNodePool = 0"

text \<open>Each module-level function hands its arguments, keyword by keyword, to the default pool.\<close>

definition create_node_module ::
  "node_kwargs \<Rightarrow> world \<Rightarrow> (error + node_ref) \<times> world" where
  "create_node_module kw w =
     create_node DefaultNodePool
       \<lparr> kw_bot = kw_bot kw, kw_host = kw_host kw, kw_port = kw_port kw,
         kw_password = kw_password kw, kw_region = kw_region kw,
         kw_identifier = kw_identifier kw, kw_session = kw_session kw,
         kw_loop = kw_loop kw, kw_prefer_http = kw_prefer_http kw,
         kw_secure = kw_secure kw, kw_serializer = kw_serializer kw \<rparr> w"

definition start_node_module ::
  "(node_ref \<Rightarrow> error option) \<Rightarrow> node_kwargs \<Rightarrow> world
     \<Rightarrow> (error + node_ref) \<times> world" where
  "start_node_module raises kw w =
     start_node raises DefaultNodePool
       \<lparr> kw_bot = kw_bot kw, kw_host = kw_host kw, kw_port = kw_port kw,
         kw_password = kw_password kw, kw_region = kw_region kw,
         kw_identifier = kw_identifier kw, kw_session = kw_session kw,
         kw_loop = kw_loop kw, kw_prefer_http = kw_prefer_http kw,
         kw_secure = kw_secure kw, kw_serializer = kw_serializer kw \<rparr> w"

definition add_node_module ::
  "node_ref \<Rightarrow> string option \<Rightarrow> world \<Rightarrow> (error + unit) \<times> world" where
  "add_node_module node ident w = add_node DefaultNodePool node ident w"

definition get_node_module :: "string option \<Rightarrow> string option \<Rightarrow> world \<Rightarrow> error + node_ref" where
  "get_node_module ident reg w = get_node DefaultNodePool ident reg w"

definition get_player_module ::
  "snowflake \<Rightarrow> node_ref option \<Rightarrow> world \<Rightarrow> (error + player) \<times> world" where
  "get_player_module g node w = get_player DefaultNodePool g node w"

section \<open>Concrete pools\<close>

text \<open>The default values of the keyword arguments, for a bot with handle 0.\<close>

definition default_kwargs :: node_kwargs where
  "default_kwargs =
     \<lparr> kw_bot = 0, kw_host = ''127.0.0.1'', kw_port = Inl 2333, kw_password = None,
       kw_region = None, kw_identifier = None, kw_session = None, kw_loop = None,
       kw_prefer_http = False, kw_secure = False, kw_serializer = 0 \<rparr>"

text \<open>A node with a given identifier and region whose server reports \<open>k\<close> players.\<close>

definition example_node :: "string \<Rightarrow> string option \<Rightarrow> int \<Rightarrow> node" where
  "example_node i rg k =
     (Node_init [] (default_kwargs\<lparr> kw_identifier := Some i, kw_region := rg \<rparr>))
       \<lparr> reported_players := Some k \<rparr>"

text \<open>No node exists yet and every pool is empty.\<close>

definition world0 :: world where
  "world0 = \<lparr> heap = (\<lambda>r. Node_init [] default_kwargs), pools = (\<lambda>p. []),
              next_node = 0, next_player = 0 \<rparr>"

text \<open>One node with the identifier \<^verbatim>\<open>'MAIN'\<close>, registered in the default pool under it.\<close>

definition world1 :: world where
  "world1 = \<lparr> heap = (\<lambda>r. example_node ''MAIN'' None 0),
              pools = (\<lambda>p. if p = DefaultNodePool then [(Some ''MAIN'', 0)] else []),
              next_node = 1, next_player = 0 \<rparr>"

text \<open>Three nodes A, B, C with loads 2, 1, 1, none of them registered.\<close>

definition world_unregistered :: world where
  "world_unregistered =
     \<lparr> heap = (\<lambda>r. if r = 0 then example_node ''A'' (Some ''eu'') 2
                   else if r = 1 then example_node ''B'' (Some ''us'') 1
                   else example_node ''C'' (Some ''eu'') 1),
       pools = (\<lambda>p. []), next_node = 3, next_player = 0 \<rparr>"

text \<open>The same nodes, registered in the default pool in the order A, B, C.\<close>

definition world3 :: world where
  "world3 = world_unregistered
     \<lparr> pools := (\<lambda>p. if p = DefaultNodePool
                     then [(Some ''A'', 0), (Some ''B'', 1), (Some ''C'', 2)] else []) \<rparr>"

text \<open>Node B's teardown raises, the others' do not.\<close>

definition B_raises :: "node_ref \<Rightarrow> error option" where
  "B_raises r = (if r = 1 then Some (ConnectionFailure 1) else None)"

definition never_raises :: "node_ref \<Rightarrow> error option" where
  "never_raises r = None"

section \<open>Selection\<close>

lemma hd_insort_key:
  "hd (insort_key f x ys) = (if ys = [] then x else if f x \<le> f (hd ys) then x else hd ys)"
  by (cases ys) auto

lemma sort_key_nonempty: "xs \<noteq> [] \<Longrightarrow> sort_key f xs \<noteq> []"
  by (metis length_sort length_0_conv)

text \<open>
  The head of a stably sorted list is the first element of the input, in the input's
  order, whose key is minimal.
\<close>

lemma sort_key_first_min:
  fixes f :: "'a \<Rightarrow> int"
  shows "xs \<noteq> [] \<Longrightarrow>
    \<exists>i<length xs. hd (sort_key f xs) = xs ! i
       \<and> (\<forall>j<length xs. f (xs ! i) \<le> f (xs ! j))
       \<and> (\<forall>j<i. f (xs ! i) < f (xs ! j))"
proof (induction xs)
  case Nil
  then show ?case by simp
next
  case (Cons x xs)
  show ?case
  proof (cases "xs = []")
    case True
    then show ?thesis by simp
  next
    case False
    with Cons.IH obtain i where i: "i < length xs" "hd (sort_key f xs) = xs ! i"
      "\<forall>j<length xs. f (xs ! i) \<le> f (xs ! j)" "\<forall>j<i. f (xs ! i) < f (xs ! j)"
      by blast
    have ne: "sort_key f xs \<noteq> []" using False by (rule sort_key_nonempty)
    have hd: "hd (sort_key f (x # xs)) = (if f x \<le> f (xs ! i) then x else xs ! i)"
      using ne i(2) by (simp add: hd_insort_key)
    show ?thesis
    proof (cases "f x \<le> f (xs ! i)")
      case True
      have "\<forall>j<length (x # xs). f ((x # xs) ! 0) \<le> f ((x # xs) ! j)"
      proof (intro allI impI)
        fix j assume "j < length (x # xs)"
        then show "f ((x # xs) ! 0) \<le> f ((x # xs) ! j)"
          using True i(3) by (cases j) (auto intro: order_trans)
      qed
      with True hd show ?thesis by (intro exI[of _ 0]) simp
    next
      case False
      have a: "\<forall>j<length (x # xs). f ((x # xs) ! Suc i) \<le> f ((x # xs) ! j)"
      proof (intro allI impI)
        fix j assume "j < length (x # xs)"
        then show "f ((x # xs) ! Suc i) \<le> f ((x # xs) ! j)"
          using False i(3) by (cases j) auto
      qed
      have b: "\<forall>j<Suc i. f ((x # xs) ! Suc i) < f ((x # xs) ! j)"
      proof (intro allI impI)
        fix j assume "j < Suc i"
        then show "f ((x # xs) ! Suc i) < f ((x # xs) ! j)"
          using False i(4) by (cases j) auto
      qed
      from False hd a b i(1) show ?thesis by (intro exI[of _ "Suc i"]) simp
    qed
  qed
qed

text \<open>
  Claim C1. On a non-empty pool, \<^verbatim>\<open>get_node()\<close> with no identifier and no region returns
  a registered node whose player count is minimal among all registered nodes, and every
  node registered before it has a strictly larger player count: among the nodes of minimal
  load it is the earliest registered.
\<close>

theorem get_node_least_loaded:
  assumes "pools w self \<noteq> []"
  shows "\<exists>i<length (pools w self).
           get_node self None None w = Inr (snd (pools w self ! i))
         \<and> (\<forall>j<length (pools w self).
               player_count (heap w (snd (pools w self ! i)))
                 \<le> player_count (heap w (snd (pools w self ! j))))
         \<and> (\<forall>j<i. player_count (heap w (snd (pools w self ! i)))
                 < player_count (heap w (snd (pools w self ! j))))"
proof -
  let ?xs = "map snd (pools w self)"
  let ?f = "\<lambda>node. player_count (heap w node)"
  have ne: "?xs \<noteq> []" using assms by simp
  from sort_key_first_min[OF ne, of ?f] obtain i where i: "i < length ?xs"
    "hd (sort_key ?f ?xs) = ?xs ! i"
    "\<forall>j<length ?xs. ?f (?xs ! i) \<le> ?f (?xs ! j)" "\<forall>j<i. ?f (?xs ! i) < ?f (?xs ! j)"
    by blast
  have "sort_key ?f ?xs \<noteq> []" using ne by (rule sort_key_nonempty)
  then have "get_node self None None w = Inr (hd (sort_key ?f ?xs))"
    using assms by (auto simp: get_node_def walk_nodes_def split: list.splits)
  with i show ?thesis
    by (intro exI[of _ i]) simp
qed

text \<open>Nodes A, B, C with loads 2, 1, 1: B is returned, not C.\<close>

theorem get_node_least_loaded_witness:
  "pools world3 DefaultNodePool \<noteq> []
   \<and> get_node DefaultNodePool None None world3 = Inr 1
   \<and> (\<exists>i<length (pools world3 DefaultNodePool).
           get_node DefaultNodePool None None world3 = Inr (snd (pools world3 DefaultNodePool ! i))
         \<and> (\<forall>j<length (pools world3 DefaultNodePool).
               player_count (heap world3 (snd (pools world3 DefaultNodePool ! i)))
                 \<le> player_count (heap world3 (snd (pools world3 DefaultNodePool ! j))))
         \<and> (\<forall>j<i. player_count (heap world3 (snd (pools world3 DefaultNodePool ! i)))
                 < player_count (heap world3 (snd (pools world3 DefaultNodePool ! j)))))"
proof -
  have h: "pools world3 DefaultNodePool \<noteq> []" by (simp add: world3_def)
  have v: "get_node DefaultNodePool None None world3 = Inr 1"
    by (simp add: get_node_def walk_nodes_def world3_def world_unregistered_def
          example_node_def player_count_def Node_init_def DefaultNodePool_def)
  from get_node_least_loaded[OF h] h v show ?thesis by blast
qed

text \<open>
  On the empty pool a lookup by an identifier that is not registered raises
  NoAvailableNodes, not NoMatches.
\<close>

theorem get_node_empty_pool_counterexample:
  "\<not> has_key DefaultNodePool world0 (Some ''A'')
   \<and> get_node DefaultNodePool (Some ''A'') None world0 = Inl (NoAvailableNodes DefaultNodePool)
   \<and> get_node DefaultNodePool (Some ''A'') None world0
        \<noteq> Inl (NoMatches DefaultNodePool (Some ''A'') None)"
  by (simp add: get_node_def has_key_def world0_def)

text \<open>
  Claim C5, as the code has it. \<^verbatim>\<open>get_node\<close> tests for the empty pool before it looks at
  the identifier, so on an empty pool it raises NoAvailableNodes whether or not an
  identifier is given. On a non-empty pool it raises NoMatches when an identifier is given
  that is not registered, and when no identifier is given and a region is given that no
  registered node has; in every other case it returns a registered node.
\<close>

theorem get_node_errors:
  "(pools w self = [] \<longrightarrow> get_node self ident reg w = Inl (NoAvailableNodes self))
 \<and> (pools w self \<noteq> [] \<and> ident \<noteq> None \<and> \<not> has_key self w ident
      \<longrightarrow> get_node self ident reg w = Inl (NoMatches self ident reg))
 \<and> (pools w self \<noteq> [] \<and> ident = None \<and> reg \<noteq> None
      \<and> (\<forall>node\<in>set (walk_nodes self w). region (heap w node) \<noteq> reg)
      \<longrightarrow> get_node self ident reg w = Inl (NoMatches self ident reg))
 \<and> (pools w self \<noteq> [] \<and> (ident \<noteq> None \<longrightarrow> has_key self w ident)
      \<and> (ident = None \<and> reg \<noteq> None
            \<longrightarrow> (\<exists>node\<in>set (walk_nodes self w). region (heap w node) = reg))
      \<longrightarrow> (\<exists>node\<in>set (walk_nodes self w). get_node self ident reg w = Inr node))"
proof (intro conjI impI)
  assume "pools w self = []"
  then show "get_node self ident reg w = Inl (NoAvailableNodes self)"
    by (simp add: get_node_def)
next
  assume a: "pools w self \<noteq> [] \<and> ident \<noteq> None \<and> \<not> has_key self w ident"
  then obtain i where i: "ident = Some i" by auto
  from a have "map_of (pools w self) (Some i) = None"
    by (simp add: has_key_def i map_of_eq_None_iff)
  with a i show "get_node self ident reg w = Inl (NoMatches self ident reg)"
    by (simp add: get_node_def)
next
  assume a: "pools w self \<noteq> [] \<and> ident = None \<and> reg \<noteq> None
      \<and> (\<forall>node\<in>set (walk_nodes self w). region (heap w node) \<noteq> reg)"
  then obtain rg where rg: "reg = Some rg" by auto
  from a rg have "filter (\<lambda>node. region (heap w node) = Some rg) (walk_nodes self w) = []"
    by (auto simp: filter_empty_conv)
  with a rg show "get_node self ident reg w = Inl (NoMatches self ident reg)"
    by (simp add: get_node_def)
next
  assume a: "pools w self \<noteq> [] \<and> (ident \<noteq> None \<longrightarrow> has_key self w ident)
      \<and> (ident = None \<and> reg \<noteq> None
            \<longrightarrow> (\<exists>node\<in>set (walk_nodes self w). region (heap w node) = reg))"
  show "\<exists>node\<in>set (walk_nodes self w). get_node self ident reg w = Inr node"
  proof (cases ident)
    case (Some i)
    with a have "Some i \<in> fst ` set (pools w self)" by (simp add: has_key_def)
    then obtain node where n: "map_of (pools w self) (Some i) = Some node"
      by (metis map_of_eq_None_iff not_Some_eq)
    then have "node \<in> set (walk_nodes self w)"
      by (auto simp: walk_nodes_def dest!: map_of_SomeD intro: rev_image_eqI)
    with n a Some show ?thesis by (auto simp: get_node_def)
  next
    case None
    define ns where "ns = (case reg of
                        Some rg \<Rightarrow> filter (\<lambda>node. region (heap w node) = Some rg) (walk_nodes self w)
                      | None \<Rightarrow> walk_nodes self w)"
    have sub: "set ns \<subseteq> set (walk_nodes self w)"
      by (auto simp: ns_def split: option.splits)
    have "ns \<noteq> []"
    proof (cases reg)
      case None
      with a show ?thesis by (simp add: ns_def walk_nodes_def)
    next
      case (Some rg)
      with a \<open>ident = None\<close> show ?thesis by (auto simp: ns_def filter_empty_conv)
    qed
    then have ne: "sort_key (\<lambda>node. player_count (heap w node)) ns \<noteq> []"
      by (rule sort_key_nonempty)
    then obtain node rest where s: "sort_key (\<lambda>node. player_count (heap w node)) ns = node # rest"
      by (cases "sort_key (\<lambda>node. player_count (heap w node)) ns") auto
    then have "node \<in> set (sort_key (\<lambda>node. player_count (heap w node)) ns)" by simp
    then have "node \<in> set (walk_nodes self w)" using sub by auto
    moreover have "get_node self ident reg w = Inr node"
      using a None s by (simp add: get_node_def ns_def)
    ultimately show ?thesis by blast
  qed
qed

theorem get_node_errors_witness:
  "get_node DefaultNodePool (Some ''A'') (Some ''eu'') world0 = Inl (NoAvailableNodes DefaultNodePool)
 \<and> get_node DefaultNodePool (Some ''Z'') None world3 = Inl (NoMatches DefaultNodePool (Some ''Z'') None)
 \<and> get_node DefaultNodePool None (Some ''asia'') world3
       = Inl (NoMatches DefaultNodePool None (Some ''asia''))
 \<and> (\<exists>node\<in>set (walk_nodes DefaultNodePool world3).
       get_node DefaultNodePool None (Some ''eu'') world3 = Inr node)"
proof -
  have p0: "pools world0 DefaultNodePool = []" by (simp add: world0_def)
  have p3: "pools world3 DefaultNodePool \<noteq> []" by (simp add: world3_def)
  have k3: "\<not> has_key DefaultNodePool world3 (Some ''Z'')"
    by (simp add: has_key_def world3_def)
  have r3: "\<forall>node\<in>set (walk_nodes DefaultNodePool world3).
              region (heap world3 node) \<noteq> Some ''asia''"
    by (simp add: walk_nodes_def world3_def world_unregistered_def example_node_def Node_init_def)
  have e3: "\<exists>node\<in>set (walk_nodes DefaultNodePool world3).
              region (heap world3 node) = Some ''eu''"
    by (simp add: walk_nodes_def world3_def world_unregistered_def example_node_def Node_init_def)
  have 1: "get_node DefaultNodePool (Some ''A'') (Some ''eu'') world0
             = Inl (NoAvailableNodes DefaultNodePool)"
    using get_node_errors[of world0 DefaultNodePool "Some ''A''" "Some ''eu''"] p0 by blast
  have 2: "get_node DefaultNodePool (Some ''Z'') None world3
             = Inl (NoMatches DefaultNodePool (Some ''Z'') None)"
    using get_node_errors[of world3 DefaultNodePool "Some ''Z''" None] p3 k3 by blast
  have 3: "get_node DefaultNodePool None (Some ''asia'') world3
             = Inl (NoMatches DefaultNodePool None (Some ''asia''))"
    using get_node_errors[of world3 DefaultNodePool None "Some ''asia''"] p3 r3 by blast
  have 4: "\<exists>node\<in>set (walk_nodes DefaultNodePool world3).
             get_node DefaultNodePool None (Some ''eu'') world3 = Inr node"
    using get_node_errors[of world3 DefaultNodePool None "Some ''eu''"] p3 e3 by blast
  from 1 2 3 4 show ?thesis by blast
qed

section \<open>Registration\<close>

text \<open>
  Supporting facts: \<^verbatim>\<open>create_node\<close> raises NodeConflict exactly when the identifier it
  tests is a key of the pool; it never returns a node and never changes the world.
\<close>

lemma create_node_conflict_iff:
  "(\<exists>k. fst (create_node self kw w) = Inl (NodeConflict self k))
     \<longleftrightarrow> has_key self w (if kw_identifier kw = None \<and> pools w self = [] then Some ''MAIN''
                          else kw_identifier kw)"
  by (simp add: create_node_def Let_def)

lemma create_node_unchanged: "snd (create_node self kw w) = w"
  by (simp add: create_node_def Let_def)

lemma create_node_never_returns: "fst (create_node self kw w) \<noteq> Inr node"
  by (simp add: create_node_def Let_def)

lemma world1_eval:
  "pools world1 DefaultNodePool = [(Some ''MAIN'', 0)]" "next_node world1 = 1"
  by (simp_all add: world1_def)

text \<open>
  Claim C8, evaluated on the code. On the empty pool, with no identifier, \<^verbatim>\<open>create_node\<close>
  sets \<^verbatim>\<open>identifier = 'MAIN'\<close>, passes the conflict test and raises NameError at
  \<^verbatim>\<open>Node(...)\<close>: no node is built and the pool stays empty. The claim says a node
  carrying \<^verbatim>\<open>'MAIN'\<close> is built and registered under that identifier.
\<close>

theorem create_node_empty_pool_NameError:
  "pools world0 DefaultNodePool = [] \<and> kw_identifier default_kwargs = None
   \<and> create_node DefaultNodePool default_kwargs world0 = (Inl (NameError ''Node''), world0)
   \<and> pools (snd (create_node DefaultNodePool default_kwargs world0)) DefaultNodePool = []"
  by (simp add: create_node_def has_key_def world0_def default_kwargs_def Let_def)

text \<open>
  With the name \<^verbatim>\<open>Node\<close> bound, the rest of the method does what the claim says: the
  new node carries \<^verbatim>\<open>'MAIN'\<close> and the pool holds exactly that node under \<^verbatim>\<open>'MAIN'\<close>.
\<close>

lemma create_node_bound_first_is_MAIN:
  assumes "pools w self = []" and "kw_identifier kw = None"
  shows "\<exists>w'. create_node_bound self auto kw w = (Inr (next_node w), w')
           \<and> pools w' self = [(Some ''MAIN'', next_node w)]
           \<and> node_identifier (heap w' (next_node w)) = ''MAIN''"
  using assms by (simp add: create_node_bound_def has_key_def Node_init_def Let_def)

text \<open>
  Claim C2, evaluated on the code. The default pool holds one node under \<^verbatim>\<open>'MAIN'\<close>.
  \<^verbatim>\<open>create_node\<close> with no identifier leaves \<^verbatim>\<open>identifier\<close> at \<^verbatim>\<open>None\<close>, generates
  nothing, passes the conflict test and raises NameError at \<^verbatim>\<open>Node(...)\<close>; the pool is
  unchanged, and a second such call does the same. The claim says both calls succeed
  under generated identifiers.
\<close>

theorem create_node_unnamed_twice_fails:
  "pools world1 DefaultNodePool = [(Some ''MAIN'', 0)]
   \<and> kw_identifier default_kwargs = None
   \<and> create_node DefaultNodePool default_kwargs world1 = (Inl (NameError ''Node''), world1)
   \<and> create_node DefaultNodePool default_kwargs
        (snd (create_node DefaultNodePool default_kwargs world1))
        = (Inl (NameError ''Node''), world1)"
  by (simp add: world1_eval create_node_def has_key_def default_kwargs_def Let_def)

text \<open>
  With the name \<^verbatim>\<open>Node\<close> bound, the method still generates no identifier: the first
  call stores the new node under the key \<^verbatim>\<open>None\<close> and the second one finds that key
  and raises NodeConflict, on this pool and on every non-empty pool.
\<close>

lemma create_node_bound_unnamed_twice_conflict:
  "fst (create_node_bound DefaultNodePool ''a'' default_kwargs world1) = Inr 1
   \<and> pools (snd (create_node_bound DefaultNodePool ''a'' default_kwargs world1)) DefaultNodePool
        = [(Some ''MAIN'', 0), (None, 1)]
   \<and> fst (create_node_bound DefaultNodePool ''b'' default_kwargs
            (snd (create_node_bound DefaultNodePool ''a'' default_kwargs world1)))
        = Inl (NodeConflict DefaultNodePool None)"
  by (simp add: world1_eval create_node_bound_def has_key_def default_kwargs_def Let_def)

lemma create_node_bound_unnamed_second_fails:
  assumes "pools w self \<noteq> []" and "kw_identifier kw = None" and "kw_identifier kw' = None"
  shows "fst (create_node_bound self auto' kw' (snd (create_node_bound self auto kw w)))
           = Inl (NodeConflict self None)"
  using assms by (auto simp: create_node_bound_def has_key_def Let_def AList.dom_update)

text \<open>
  Supporting facts: \<^verbatim>\<open>add_node\<close> with a non-empty identifier that is not registered
  stores the node under that identifier, and \<^verbatim>\<open>get_node\<close> then finds it; a raise
  changes nothing.
\<close>

lemma add_node_then_get_node:
  assumes "i \<noteq> []" and "\<not> has_key self w (Some i)"
  shows "\<exists>w'. add_node self node (Some i) w = (Inr (), w')
            \<and> get_node self (Some i) None w' = Inr node"
  using assms by (simp add: add_node_def get_node_def Let_def AList.update_conv')

lemma add_node_conflict_unchanged:
  "fst (add_node self node ident w) = Inl e \<Longrightarrow> snd (add_node self node ident w) = w"
  by (auto simp: add_node_def Let_def split: if_splits)

lemma add_node_named_conflict_iff:
  assumes "i \<noteq> []"
  shows "(fst (add_node self node (Some i) w) = Inl (NodeConflict self (Some i)))
           \<longleftrightarrow> has_key self w (Some i)"
    and "\<not> has_key self w (Some i) \<Longrightarrow>
           pools (snd (add_node self node (Some i) w)) self
             = AList.update (Some i) node (pools w self)"
  using assms by (simp_all add: add_node_def Let_def)

text \<open>
  Claim C3, evaluated on the code. Node A is added under the identifier \<^verbatim>\<open>''\<close>, which is
  not registered. The call succeeds, but \<^verbatim>\<open>identifier or node.identifier\<close> stores the
  node under its own identifier \<^verbatim>\<open>'A'\<close>, and \<^verbatim>\<open>get_node('')\<close> raises NoMatches. The
  claim says it returns the node.
\<close>

theorem add_node_empty_identifier_not_found:
  "\<not> has_key DefaultNodePool world_unregistered (Some '''')
   \<and> fst (add_node DefaultNodePool 0 (Some '''') world_unregistered) = Inr ()
   \<and> pools (snd (add_node DefaultNodePool 0 (Some '''') world_unregistered)) DefaultNodePool
        = [(Some ''A'', 0)]
   \<and> get_node DefaultNodePool (Some '''') None
        (snd (add_node DefaultNodePool 0 (Some '''') world_unregistered))
        = Inl (NoMatches DefaultNodePool (Some '''') None)"
  by (simp add: add_node_def get_node_def has_key_def world_unregistered_def example_node_def
        Node_init_def Let_def)

text \<open>
  Claim C6, evaluated on the code. Node A is registered under \<^verbatim>\<open>'B'\<close>; then node B,
  whose own identifier is \<^verbatim>\<open>'B'\<close>, is added with the identifier \<^verbatim>\<open>''\<close>. The conflict
  test looks for \<^verbatim>\<open>''\<close>, the node is stored under \<^verbatim>\<open>'B'\<close>, which is present: no
  NodeConflict is raised and node A's registration is overwritten.
\<close>

theorem add_node_empty_identifier_overwrites:
  "pools (snd (add_node DefaultNodePool 0 (Some ''B'') world_unregistered)) DefaultNodePool
        = [(Some ''B'', 0)]
   \<and> fst (add_node DefaultNodePool 1 (Some '''')
            (snd (add_node DefaultNodePool 0 (Some ''B'') world_unregistered))) = Inr ()
   \<and> pools (snd (add_node DefaultNodePool 1 (Some '''')
            (snd (add_node DefaultNodePool 0 (Some ''B'') world_unregistered)))) DefaultNodePool
        = [(Some ''B'', 1)]"
  by (simp add: add_node_def has_key_def world_unregistered_def example_node_def
        Node_init_def Let_def)

section \<open>Players\<close>

lemma Node_get_player_existing:
  "map_of (players (heap w n)) g = Some p \<Longrightarrow> Node_get_player n g b w = (Inr p, w)"
  by (simp add: Node_get_player_def)

lemma Node_get_player_absent_fail:
  "map_of (players (heap w n)) g = None \<Longrightarrow>
     Node_get_player n g True w = (Inl (PlayerNotFound n g), w)"
  by (simp add: Node_get_player_def)

lemma get_player_loop_none:
  "\<forall>n\<in>set ns. map_of (players (heap w n)) g = None \<Longrightarrow> get_player_loop ns g w = (None, w)"
  by (induction ns) (simp_all add: Node_get_player_absent_fail)

lemma get_player_loop_first:
  "\<forall>n\<in>set pre. map_of (players (heap w n)) g = None \<Longrightarrow>
   map_of (players (heap w n)) g = Some p \<Longrightarrow>
   get_player_loop (pre @ n # post) g w = (Some (Inr p), w)"
  by (induction pre) (simp_all add: Node_get_player_absent_fail Node_get_player_existing)

lemma get_player_loop_cases:
  "(get_player_loop ns g w = (None, w) \<and> (\<forall>n\<in>set ns. map_of (players (heap w n)) g = None))
   \<or> (\<exists>pre n post p. ns = pre @ n # post
         \<and> (\<forall>m\<in>set pre. map_of (players (heap w m)) g = None)
         \<and> map_of (players (heap w n)) g = Some p
         \<and> get_player_loop ns g w = (Some (Inr p), w))"
proof (cases "\<forall>n\<in>set ns. map_of (players (heap w n)) g = None")
  case True
  then show ?thesis by (simp add: get_player_loop_none)
next
  case False
  then have "\<exists>n\<in>set ns. map_of (players (heap w n)) g \<noteq> None" by blast
  then obtain pre n post where s: "ns = pre @ n # post"
    "map_of (players (heap w n)) g \<noteq> None"
    "\<forall>m\<in>set pre. \<not> map_of (players (heap w m)) g \<noteq> None"
    using split_list_first_prop[of ns "\<lambda>n. map_of (players (heap w n)) g \<noteq> None"] by blast
  then obtain p where p: "map_of (players (heap w n)) g = Some p" by auto
  from s(3) have pre: "\<forall>m\<in>set pre. map_of (players (heap w m)) g = None" by simp
  from get_player_loop_first[OF pre p] s(1) pre p show ?thesis by blast
qed

lemma get_node_any_in_pool:
  "pools w self \<noteq> [] \<Longrightarrow> \<exists>n\<in>set (walk_nodes self w). get_node self None None w = Inr n"
proof -
  assume ne: "pools w self \<noteq> []"
  let ?s = "sort_key (\<lambda>node. player_count (heap w node)) (walk_nodes self w)"
  have "?s \<noteq> []" using ne by (simp add: sort_key_nonempty walk_nodes_def)
  then obtain n rest where s: "?s = n # rest" by (cases ?s) auto
  then have "n \<in> set ?s" by simp
  then have "n \<in> set (walk_nodes self w)" by simp
  moreover have "get_node self None None w = Inr n"
    using ne s by (simp add: get_node_def)
  ultimately show ?thesis by blast
qed

lemma get_player_creates:
  assumes none: "\<forall>n\<in>set (walk_nodes self w). map_of (players (heap w n)) g = None"
    and sel: "get_node self None None w = Inr n" and mem: "n \<in> set (walk_nodes self w)"
  shows "\<exists>p w'. get_player self g None w = (Inr p, w')
           \<and> get_player_loop (walk_nodes self w') g w' = (Some (Inr p), w')
           \<and> get_player self g None w' = (Inr p, w')"
proof -
  define p where "p = \<lparr> player_ref = next_player w, guild = g, owner = n \<rparr>"
  define w' where "w' = w\<lparr> heap := (heap w)(n := (heap w n)
                          \<lparr> players := AList.update g p (players (heap w n)) \<rparr>),
                next_player := Suc (next_player w) \<rparr>"
  have absent: "map_of (players (heap w n)) g = None" using none mem by blast
  have first: "get_player self g None w = (Inr p, w')"
    using get_player_loop_none[OF none] sel absent
    by (simp add: get_player_def Node_get_player_def p_def w'_def Let_def)
  have walk: "walk_nodes self w' = walk_nodes self w" by (simp add: walk_nodes_def w'_def)
  have here: "map_of (players (heap w' n)) g = Some p"
    by (simp add: w'_def AList.update_conv')
  have others: "\<forall>m\<in>set (walk_nodes self w). m \<noteq> n \<longrightarrow> map_of (players (heap w' m)) g = None"
    using none by (simp add: w'_def)
  from mem obtain pre post where split: "walk_nodes self w = pre @ n # post" "n \<notin> set pre"
    by (meson split_list_first)
  then have "\<forall>m\<in>set pre. map_of (players (heap w' m)) g = None"
    using others by auto
  from get_player_loop_first[OF this here] split(1) walk
  have loop: "get_player_loop (walk_nodes self w') g w' = (Some (Inr p), w')" by simp
  then have "get_player self g None w' = (Inr p, w')" by (simp add: get_player_def)
  with first loop show ?thesis by blast
qed

text \<open>A scan that ends with a player took it from the first node, in the order scanned, that has one for the guild.\<close>

lemma get_player_loop_found:
  assumes "get_player_loop ns g w = (Some (Inr p), w')"
  shows "\<exists>pre n post. ns = pre @ n # post
           \<and> (\<forall>m\<in>set pre. map_of (players (heap w m)) g = None)
           \<and> map_of (players (heap w n)) g = Some p"
proof -
  from get_player_loop_cases[of ns g w] assms
  obtain pre n post q where "ns = pre @ n # post"
    "\<forall>m\<in>set pre. map_of (players (heap w m)) g = None"
    "map_of (players (heap w n)) g = Some q"
    "get_player_loop ns g w = (Some (Inr q), w)"
    by auto
  with assms show ?thesis by auto
qed

text \<open>
  Claim C7. On a non-empty pool \<^verbatim>\<open>get_player(guild)\<close> returns a player. Whenever a
  call returns a player \<open>p\<close>, then in the resulting world \<open>p\<close> is the player stored for
  the guild in the first registered node, in registration order, that has a player for
  the guild; the scan of a second call finds it there, and the second call returns \<open>p\<close>
  and changes nothing: no second player is created.
\<close>

theorem get_player_twice_same:
  "(pools w self \<noteq> [] \<longrightarrow> (\<exists>p w'. get_player self g None w = (Inr p, w')))
   \<and> (\<forall>p w'. get_player self g None w = (Inr p, w') \<longrightarrow>
         (\<exists>pre n post. walk_nodes self w' = pre @ n # post
             \<and> (\<forall>m\<in>set pre. map_of (players (heap w' m)) g = None)
             \<and> map_of (players (heap w' n)) g = Some p)
       \<and> get_player_loop (walk_nodes self w') g w' = (Some (Inr p), w')
       \<and> get_player self g None w' = (Inr p, w'))"
proof -
  have tie: "\<exists>pre n post. walk_nodes self w' = pre @ n # post
             \<and> (\<forall>m\<in>set pre. map_of (players (heap w' m)) g = None)
             \<and> map_of (players (heap w' n)) g = Some p"
    if "get_player_loop (walk_nodes self w') g w' = (Some (Inr p), w')" for p w'
    using that by (rule get_player_loop_found)
  from get_player_loop_cases[of "walk_nodes self w" g w]
  consider (absent) "get_player_loop (walk_nodes self w) g w = (None, w)"
      "\<forall>n\<in>set (walk_nodes self w). map_of (players (heap w n)) g = None"
    | (found) q where "get_player_loop (walk_nodes self w) g w = (Some (Inr q), w)"
    by blast
  then show ?thesis
  proof cases
    case found
    then have "get_player self g None w = (Inr q, w)" by (simp add: get_player_def)
    with found tie[OF found] show ?thesis by auto
  next
    case absent
    show ?thesis
    proof (cases "pools w self = []")
      case True
      then have "get_player self g None w = (Inl (NoAvailableNodes self), w)"
        using absent(1) by (simp add: get_player_def get_node_def)
      with True show ?thesis by simp
    next
      case False
      then obtain n where n: "n \<in> set (walk_nodes self w)" "get_node self None None w = Inr n"
        using get_node_any_in_pool by blast
      from get_player_creates[OF absent(2) n(2) n(1)] obtain p w' where pw:
        "get_player self g None w = (Inr p, w')"
        "get_player_loop (walk_nodes self w') g w' = (Some (Inr p), w')"
        "get_player self g None w' = (Inr p, w')"
        by blast
      with tie[OF pw(2)] show ?thesis by auto
    qed
  qed
qed

text \<open>
  Nodes A, B, C with loads 2, 1, 1 and no player: the player for guild 7 is created on B,
  and the second call finds it there, after A, which has none.
\<close>

theorem get_player_twice_same_witness:
  "pools world3 DefaultNodePool \<noteq> []
   \<and> fst (get_player DefaultNodePool 7 None world3) = Inr \<lparr> player_ref = 0, guild = 7, owner = 1 \<rparr>
   \<and> (\<exists>pre n post. walk_nodes DefaultNodePool (snd (get_player DefaultNodePool 7 None world3))
                       = pre @ n # post
         \<and> (\<forall>m\<in>set pre. map_of (players (heap (snd (get_player DefaultNodePool 7 None world3)) m)) 7
                            = None)
         \<and> map_of (players (heap (snd (get_player DefaultNodePool 7 None world3)) n)) 7
             = Some \<lparr> player_ref = 0, guild = 7, owner = 1 \<rparr>)
   \<and> get_player DefaultNodePool 7 None (snd (get_player DefaultNodePool 7 None world3))
       = (Inr \<lparr> player_ref = 0, guild = 7, owner = 1 \<rparr>, snd (get_player DefaultNodePool 7 None world3))"
proof -
  have h: "pools world3 DefaultNodePool \<noteq> []" by (simp add: world3_def)
  have v: "fst (get_player DefaultNodePool 7 None world3)
             = Inr \<lparr> player_ref = 0, guild = 7, owner = 1 \<rparr>"
    by (simp add: get_player_def get_node_def walk_nodes_def Node_get_player_def world3_def
          world_unregistered_def example_node_def player_count_def Node_init_def
          DefaultNodePool_def Let_def)
  then have "get_player DefaultNodePool 7 None world3
       = (Inr \<lparr> player_ref = 0, guild = 7, owner = 1 \<rparr>, snd (get_player DefaultNodePool 7 None world3))"
    by (metis prod.collapse)
  with get_player_twice_same[of world3 DefaultNodePool 7] h v show ?thesis by blast
qed

section \<open>Teardown\<close>

lemma destroy_loop_success:
  "\<forall>n\<in>set ns. raises n = None \<Longrightarrow> destroy_loop raises ns w = (Inr (), close_all ns w)"
proof (induction ns arbitrary: w)
  case Nil
  then show ?case by (simp add: close_all_def)
next
  case (Cons n ns)
  let ?w1 = "w\<lparr> heap := (heap w)(n := (heap w n)\<lparr> state := Closed, players := [] \<rparr>) \<rparr>"
  have "destroy_loop raises (n # ns) w = destroy_loop raises ns ?w1"
    using Cons.prems by (simp add: Node_destroy_def)
  also have "\<dots> = (Inr (), close_all ns ?w1)"
    using Cons.prems by (intro Cons.IH) simp
  also have "close_all ns ?w1 = close_all (n # ns) w"
    by (auto simp: close_all_def fun_eq_iff)
  finally show ?case .
qed

lemma destroy_loop_failure:
  "\<forall>n\<in>set pre. raises n = None \<Longrightarrow> raises node = Some e \<Longrightarrow>
     destroy_loop raises (pre @ node # post) w = (Inl e, close_all pre w)"
proof (induction pre arbitrary: w)
  case Nil
  then show ?case by (simp add: close_all_def Node_destroy_def)
next
  case (Cons n ns)
  let ?w1 = "w\<lparr> heap := (heap w)(n := (heap w n)\<lparr> state := Closed, players := [] \<rparr>) \<rparr>"
  have "destroy_loop raises ((n # ns) @ node # post) w
          = destroy_loop raises (ns @ node # post) ?w1"
    using Cons.prems by (simp add: Node_destroy_def)
  also have "\<dots> = (Inl e, close_all ns ?w1)"
    using Cons.prems by (intro Cons.IH) simp_all
  also have "close_all ns ?w1 = close_all (n # ns) w"
    by (auto simp: close_all_def fun_eq_iff)
  finally show ?case .
qed

lemma destroy_empty:
  assumes "pools w self = []"
  shows "destroy raises self w = (Inr (), w)"
proof -
  have "(pools w)(self := []) = pools w"
    using assms by (simp add: fun_upd_idem)
  then show ?thesis
    using assms by (simp add: destroy_def walk_nodes_def)
qed

text \<open>
  Node B's teardown raises: \<^verbatim>\<open>destroy\<close> raises that exception, node C, registered
  after B, is not torn down, and the pool keeps its three entries.
\<close>

theorem destroy_stops_at_failure_counterexample:
  "fst (destroy B_raises DefaultNodePool world3) = Inl (ConnectionFailure 1)
   \<and> state (heap (snd (destroy B_raises DefaultNodePool world3)) 0) = Closed
   \<and> state (heap (snd (destroy B_raises DefaultNodePool world3)) 2) = Unstarted
   \<and> pools (snd (destroy B_raises DefaultNodePool world3)) DefaultNodePool
       = [(Some ''A'', 0), (Some ''B'', 1), (Some ''C'', 2)]"
  by (simp add: destroy_def walk_nodes_def Node_destroy_def B_raises_def world3_def
        world_unregistered_def example_node_def Node_init_def)

text \<open>
  Claim C4, as the code has it. If no registered node's teardown raises, \<^verbatim>\<open>destroy\<close>
  tears down every registered node and empties the pool. If a node's teardown raises,
  the exception leaves \<^verbatim>\<open>destroy\<close>: the nodes registered before it have been torn down,
  every other node is as it was, and the pool's dictionary is unchanged.
\<close>

theorem destroy_all_or_stop:
  "((\<forall>node\<in>set (walk_nodes self w). raises node = None) \<longrightarrow>
      (\<exists>w'. destroy raises self w = (Inr (), w') \<and> pools w' self = []
           \<and> (\<forall>node\<in>set (walk_nodes self w). state (heap w' node) = Closed)))
   \<and> (\<forall>pre node post e.
        walk_nodes self w = pre @ node # post \<and> (\<forall>n\<in>set pre. raises n = None)
          \<and> raises node = Some e \<longrightarrow>
        (\<exists>w'. destroy raises self w = (Inl e, w') \<and> pools w' = pools w
           \<and> (\<forall>n\<in>set pre. state (heap w' n) = Closed)
           \<and> (\<forall>n. n \<notin> set pre \<longrightarrow> heap w' n = heap w n)))"
proof (intro conjI allI impI)
  assume "\<forall>node\<in>set (walk_nodes self w). raises node = None"
  then have "destroy_loop raises (walk_nodes self w) w = (Inr (), close_all (walk_nodes self w) w)"
    by (rule destroy_loop_success)
  then show "\<exists>w'. destroy raises self w = (Inr (), w') \<and> pools w' self = []
           \<and> (\<forall>node\<in>set (walk_nodes self w). state (heap w' node) = Closed)"
    by (simp add: destroy_def close_all_def)
next
  fix pre node post e
  assume a: "walk_nodes self w = pre @ node # post \<and> (\<forall>n\<in>set pre. raises n = None)
          \<and> raises node = Some e"
  then have "destroy_loop raises (walk_nodes self w) w = (Inl e, close_all pre w)"
    by (simp add: destroy_loop_failure)
  then show "\<exists>w'. destroy raises self w = (Inl e, w') \<and> pools w' = pools w
           \<and> (\<forall>n\<in>set pre. state (heap w' n) = Closed)
           \<and> (\<forall>n. n \<notin> set pre \<longrightarrow> heap w' n = heap w n)"
    by (simp add: destroy_def close_all_def)
qed

theorem destroy_all_or_stop_witness:
  "(\<exists>w'. destroy never_raises DefaultNodePool world3 = (Inr (), w') \<and> pools w' DefaultNodePool = []
           \<and> (\<forall>node\<in>set (walk_nodes DefaultNodePool world3). state (heap w' node) = Closed))
   \<and> (\<exists>w'. destroy B_raises DefaultNodePool world3 = (Inl (ConnectionFailure 1), w')
           \<and> pools w' = pools world3
           \<and> (\<forall>n\<in>set [0]. state (heap w' n) = Closed)
           \<and> (\<forall>n. n \<notin> set [0] \<longrightarrow> heap w' n = heap world3 n))"
proof -
  have h1: "\<forall>node\<in>set (walk_nodes DefaultNodePool world3). never_raises node = None"
    by (simp add: never_raises_def)
  have h2: "walk_nodes DefaultNodePool world3 = [0] @ 1 # [2] \<and> (\<forall>n\<in>set [0]. B_raises n = None)
          \<and> B_raises 1 = Some (ConnectionFailure 1)"
    by (simp add: walk_nodes_def world3_def B_raises_def)
  from destroy_all_or_stop[of DefaultNodePool world3 never_raises] h1
  have 1: "\<exists>w'. destroy never_raises DefaultNodePool world3 = (Inr (), w') \<and> pools w' DefaultNodePool = []
           \<and> (\<forall>node\<in>set (walk_nodes DefaultNodePool world3). state (heap w' node) = Closed)"
    by blast
  from destroy_all_or_stop[of DefaultNodePool world3 B_raises] h2
  have 2: "\<exists>w'. destroy B_raises DefaultNodePool world3 = (Inl (ConnectionFailure 1), w')
           \<and> pools w' = pools world3
           \<and> (\<forall>n\<in>set [0]. state (heap w' n) = Closed)
           \<and> (\<forall>n. n \<notin> set [0] \<longrightarrow> heap w' n = heap world3 n)"
    by blast
  from 1 2 show ?thesis by blast
qed

lemma destroy_loop_pools: "pools (snd (destroy_loop raises ns w)) = pools w"
  by (induction ns arbitrary: w) (simp_all add: Node_destroy_def split: option.splits)

text \<open>
  Node B's teardown raises: after one \<^verbatim>\<open>destroy\<close> the pool still has its three
  entries, and a second \<^verbatim>\<open>destroy\<close> tears node A down again and raises again.
\<close>

theorem destroy_twice_raises_counterexample:
  "len DefaultNodePool (snd (destroy B_raises DefaultNodePool world3)) = 3
   \<and> fst (destroy B_raises DefaultNodePool (snd (destroy B_raises DefaultNodePool world3)))
       = Inl (ConnectionFailure 1)"
  by (simp add: destroy_def len_def walk_nodes_def Node_destroy_def B_raises_def world3_def
        world_unregistered_def)

text \<open>
  Claim C9, as the code has it. After a \<^verbatim>\<open>destroy\<close> that returned, the pool has no
  entry, and another \<^verbatim>\<open>destroy\<close> returns without an exception and leaves the world,
  every node included, as it is, whatever the nodes' teardowns would do. A \<^verbatim>\<open>destroy\<close>
  that raised has left every pool's dictionary as it was.
\<close>

theorem destroy_idempotent_after_return:
  "(\<forall>w'. destroy raises self w = (Inr (), w') \<longrightarrow>
        pools w' self = [] \<and> len self w' = 0 \<and> destroy raises' self w' = (Inr (), w'))
   \<and> (\<forall>e w'. destroy raises self w = (Inl e, w') \<longrightarrow> pools w' = pools w)"
proof (rule conjI)
  show "\<forall>w'. destroy raises self w = (Inr (), w') \<longrightarrow>
        pools w' self = [] \<and> len self w' = 0 \<and> destroy raises' self w' = (Inr (), w')"
  proof (rule allI, rule impI)
    fix w' assume "destroy raises self w = (Inr (), w')"
    then have "pools w' self = []"
      by (auto simp: destroy_def split: prod.splits sum.splits)
    then show "pools w' self = [] \<and> len self w' = 0 \<and> destroy raises' self w' = (Inr (), w')"
      by (simp add: destroy_empty len_def)
  qed
next
  show "\<forall>e w'. destroy raises self w = (Inl e, w') \<longrightarrow> pools w' = pools w"
  proof (intro allI impI)
    fix e w' assume "destroy raises self w = (Inl e, w')"
    then have "w' = snd (destroy_loop raises (walk_nodes self w) w)"
      by (auto simp: destroy_def split: prod.splits sum.splits)
    then show "pools w' = pools w" by (simp add: destroy_loop_pools)
  qed
qed

theorem destroy_idempotent_after_return_witness:
  "fst (destroy never_raises DefaultNodePool world3) = Inr ()
   \<and> pools (snd (destroy never_raises DefaultNodePool world3)) DefaultNodePool = []
   \<and> len DefaultNodePool (snd (destroy never_raises DefaultNodePool world3)) = 0
   \<and> destroy B_raises DefaultNodePool (snd (destroy never_raises DefaultNodePool world3))
       = (Inr (), snd (destroy never_raises DefaultNodePool world3))
   \<and> fst (destroy B_raises DefaultNodePool world3) = Inl (ConnectionFailure 1)
   \<and> pools (snd (destroy B_raises DefaultNodePool world3)) = pools world3"
proof -
  have h: "fst (destroy never_raises DefaultNodePool world3) = Inr ()"
    by (simp add: destroy_def walk_nodes_def Node_destroy_def never_raises_def world3_def)
  then have h': "destroy never_raises DefaultNodePool world3
               = (Inr (), snd (destroy never_raises DefaultNodePool world3))"
    by (metis prod.collapse)
  have k: "fst (destroy B_raises DefaultNodePool world3) = Inl (ConnectionFailure 1)"
    by (simp add: destroy_def walk_nodes_def Node_destroy_def B_raises_def world3_def)
  then have k': "destroy B_raises DefaultNodePool world3
               = (Inl (ConnectionFailure 1), snd (destroy B_raises DefaultNodePool world3))"
    by (metis prod.collapse)
  from destroy_idempotent_after_return[of never_raises DefaultNodePool world3 B_raises] h'
  have 1: "pools (snd (destroy never_raises DefaultNodePool world3)) DefaultNodePool = []
     \<and> len DefaultNodePool (snd (destroy never_raises DefaultNodePool world3)) = 0
     \<and> destroy B_raises DefaultNodePool (snd (destroy never_raises DefaultNodePool world3))
       = (Inr (), snd (destroy never_raises DefaultNodePool world3))"
    by blast
  from destroy_idempotent_after_return[of B_raises DefaultNodePool world3 B_raises] k'
  have 2: "pools (snd (destroy B_raises DefaultNodePool world3)) = pools world3"
    by blast
  from h k 1 2 show ?thesis by blast
qed

section \<open>Module-level functions\<close>

lemma kwargs_rebuilt:
  "\<lparr> kw_bot = kw_bot kw, kw_host = kw_host kw, kw_port = kw_port kw,
     kw_password = kw_password kw, kw_region = kw_region kw,
     kw_identifier = kw_identifier kw, kw_session = kw_session kw,
     kw_loop = kw_loop kw, kw_prefer_http = kw_prefer_http kw,
     kw_secure = kw_secure kw, kw_serializer = kw_serializer kw \<rparr> = (kw :: node_kwargs)"
  by (cases kw) simp

text \<open>
  Claim C10. Each module-level function returns the result, exception or value, and the
  world that the \<^verbatim>\<open>NodePool\<close> method of the same name gives on \<^verbatim>\<open>DefaultNodePool\<close>
  with the same arguments.
\<close>

theorem module_functions_delegate:
  "create_node_module kw w = create_node DefaultNodePool kw w
   \<and> start_node_module raises kw w = start_node raises DefaultNodePool kw w
   \<and> add_node_module node ident w = add_node DefaultNodePool node ident w
   \<and> get_node_module ident reg w = get_node DefaultNodePool ident reg w
   \<and> get_player_module g nodeopt w = get_player DefaultNodePool g nodeopt w"
  by (simp add: create_node_module_def start_node_module_def add_node_module_def
        get_node_module_def get_player_module_def kwargs_rebuilt)

end
